theory Spec2Isabelle
  imports Complex_Main
begin

section \<open>JavaScript numbers\<close>

text \<open>
  The playground computes with JavaScript numbers, the IEEE 754 doubles. A number is
  a real or one of the three special values; the two signed zeros are one value
  \<open>Fin 0\<close> (taken as \<open>+0\<close> where the sign of a zero divisor matters). Every operation
  on or into \<open>NaN\<close> and the infinities follows the IEEE rules, so that a division by
  zero is visible as \<open>NaN\<close> or an infinity.

  The operations \<open>js_add\<close>, \<open>js_sub\<close>, \<open>js_mul\<close> and \<open>js_div\<close> of this section give
  the exact result on finite operands. They are used as they are in the formulas built
  on \<open>Math.sin\<close>, whose value the language leaves to the implementation: the data
  generator and the fit above complexity 1. The least-squares fit, the curve sampler
  and the seed counter use only \<open>+\<close>, \<open>-\<close>, \<open>*\<close> and \<open>/\<close>, which a double computes
  correctly rounded; there the exact result is rounded to the nearest double (section
  \<open>Rounding to a double\<close>).
\<close>

datatype jsnum = Fin real | PInf | NInf | NaN

definition inf_of_sign :: "real \<Rightarrow> jsnum" where
  "inf_of_sign r = (if r = 0 then NaN else if 0 < r then PInf else NInf)"

fun js_neg :: "jsnum \<Rightarrow> jsnum" where
  "js_neg (Fin a) = Fin (- a)"
| "js_neg PInf = NInf"
| "js_neg NInf = PInf"
| "js_neg NaN = NaN"

fun js_add :: "jsnum \<Rightarrow> jsnum \<Rightarrow> jsnum" where
  "js_add (Fin a) (Fin b) = Fin (a + b)"
| "js_add NaN _ = NaN"
| "js_add _ NaN = NaN"
| "js_add PInf NInf = NaN"
| "js_add NInf PInf = NaN"
| "js_add PInf _ = PInf"
| "js_add _ PInf = PInf"
| "js_add NInf _ = NInf"
| "js_add _ NInf = NInf"

definition js_sub :: "jsnum \<Rightarrow> jsnum \<Rightarrow> jsnum" where
  "js_sub a b = js_add a (js_neg b)"

fun js_mul :: "jsnum \<Rightarrow> jsnum \<Rightarrow> jsnum" where
  "js_mul (Fin a) (Fin b) = Fin (a * b)"
| "js_mul NaN _ = NaN"
| "js_mul _ NaN = NaN"
| "js_mul (Fin a) PInf = inf_of_sign a"
| "js_mul (Fin a) NInf = inf_of_sign (- a)"
| "js_mul PInf (Fin b) = inf_of_sign b"
| "js_mul NInf (Fin b) = inf_of_sign (- b)"
| "js_mul PInf PInf = PInf"
| "js_mul NInf NInf = PInf"
| "js_mul PInf NInf = NInf"
| "js_mul NInf PInf = NInf"

fun js_div :: "jsnum \<Rightarrow> jsnum \<Rightarrow> jsnum" where
  "js_div NaN _ = NaN"
| "js_div _ NaN = NaN"
| "js_div (Fin a) (Fin b) = (if b = 0 then inf_of_sign a else Fin (a / b))"
| "js_div (Fin a) PInf = Fin 0"
| "js_div (Fin a) NInf = Fin 0"
| "js_div PInf (Fin b) = (if 0 \<le> b then PInf else NInf)"
| "js_div NInf (Fin b) = (if 0 \<le> b then NInf else PInf)"
| "js_div _ _ = NaN"

text \<open>\<open>a > b\<close> and \<open>a === b\<close> on numbers: false whenever an operand is \<open>NaN\<close>.\<close>

fun js_gt :: "jsnum \<Rightarrow> jsnum \<Rightarrow> bool" where
  "js_gt NaN _ = False"
| "js_gt _ NaN = False"
| "js_gt (Fin a) (Fin b) = (b < a)"
| "js_gt PInf PInf = False"
| "js_gt PInf _ = True"
| "js_gt _ PInf = False"
| "js_gt NInf _ = False"
| "js_gt _ NInf = True"

fun js_eq :: "jsnum \<Rightarrow> jsnum \<Rightarrow> bool" where
  "js_eq NaN _ = False"
| "js_eq _ NaN = False"
| "js_eq a b = (a = b)"

text \<open>The functions of the \<open>Math\<close> object that the playground calls.\<close>

fun Math_sin :: "jsnum \<Rightarrow> jsnum" where
  "Math_sin (Fin a) = Fin (sin a)"
| "Math_sin _ = NaN"

fun Math_floor :: "jsnum \<Rightarrow> jsnum" where
  "Math_floor (Fin a) = Fin (of_int \<lfloor>a\<rfloor>)"
| "Math_floor v = v"

fun Math_sign :: "jsnum \<Rightarrow> jsnum" where
  "Math_sign (Fin a) = Fin (sgn a)"
| "Math_sign PInf = Fin 1"
| "Math_sign NInf = Fin (- 1)"
| "Math_sign NaN = NaN"

fun Math_abs :: "jsnum \<Rightarrow> jsnum" where
  "Math_abs (Fin a) = Fin \<bar>a\<bar>"
| "Math_abs NaN = NaN"
| "Math_abs _ = PInf"

fun Math_max :: "jsnum \<Rightarrow> jsnum \<Rightarrow> jsnum" where
  "Math_max NaN _ = NaN"
| "Math_max _ NaN = NaN"
| "Math_max (Fin a) (Fin b) = Fin (max a b)"
| "Math_max PInf _ = PInf"
| "Math_max _ PInf = PInf"
| "Math_max NInf b = b"
| "Math_max a NInf = a"

definition Math_PI :: jsnum where
  "Math_PI = Fin pi"

section \<open>Rounding to a double\<close>

text \<open>
  A double has 53 significant bits and a binary exponent from -1022 to 1023. A real
  \<open>x\<close> with \<open>2 ^ e \<le> \<bar>x\<bar> < 2 ^ (e + 1)\<close> is rounded to the nearest multiple of
  \<open>2 ^ (e - 52)\<close>, the unit in the last place of its binade (of \<open>2 ^ (- 1074)\<close> below
  \<open>2 ^ (- 1022)\<close>, the subnormal range); a tie goes to the even multiple, and a result
  of magnitude \<open>2 ^ 1024\<close> or more is an infinity.
\<close>

definition round_half_even :: "real \<Rightarrow> int" where
  "round_half_even q =
     (let f = \<lfloor>q\<rfloor>
      in if q - of_int f < 1 / 2 then f
         else if 1 / 2 < q - of_int f then f + 1
         else if even f then f else f + 1)"

definition round_to_double :: "real \<Rightarrow> jsnum" where
  "round_to_double x =
     (if x = 0 then Fin 0
      else
        let e = max \<lfloor>log 2 \<bar>x\<bar>\<rfloor> (- 1022);
            ulp = 2 powi (e - 52);
            y = of_int (round_half_even (x / ulp)) * ulp
        in if 2 ^ 1024 \<le> \<bar>y\<bar> then (if 0 < x then PInf else NInf) else Fin y)"

fun round_result :: "jsnum \<Rightarrow> jsnum" where
  "round_result (Fin x) = round_to_double x"
| "round_result v = v"

text \<open>The four operations of a double: the exact result, rounded.\<close>

definition dbl_add :: "jsnum \<Rightarrow> jsnum \<Rightarrow> jsnum" where
  "dbl_add a b = round_result (js_add a b)"

definition dbl_sub :: "jsnum \<Rightarrow> jsnum \<Rightarrow> jsnum" where
  "dbl_sub a b = round_result (js_sub a b)"

definition dbl_mul :: "jsnum \<Rightarrow> jsnum \<Rightarrow> jsnum" where
  "dbl_mul a b = round_result (js_mul a b)"

definition dbl_div :: "jsnum \<Rightarrow> jsnum \<Rightarrow> jsnum" where
  "dbl_div a b = round_result (js_div a b)"

section \<open>Data model\<close>

text \<open>
  \<open>DataPoint\<close> and \<open>RegularizationType\<close> are imported by the component from
  \<open>../types\<close>: a point is the object \<open>{ x, y }\<close> of two numbers, and the
  regularization kind is the three-valued enumeration whose members the component
  names \<open>None\<close>, \<open>L1\<close> and \<open>L2\<close>. The fields are called \<open>xval\<close> and \<open>yval\<close>
  here, and the first member \<open>RegNone\<close>.
\<close>

record DataPoint =
  xval :: jsnum
  yval :: jsnum

datatype RegularizationType = RegNone | L1 | L2

text \<open>The object \<open>{ model, description }\<close> that \<open>calculateModelFunction\<close> returns.\<close>

record FittedModel =
  model :: "jsnum \<Rightarrow> jsnum"
  description :: string

section \<open>The helper functions of the playground\<close>

text \<open>
  Parameters that the component only ever uses as whole numbers (\<open>numPoints\<close>,
  \<open>steps\<close>, \<open>seed\<close>, and \<open>complexity\<close>, which the slider sets through
  \<open>parseInt\<close>) are integers; they enter the arithmetic through \<open>of_int\<close>.
\<close>

definition trueFunction :: "jsnum \<Rightarrow> jsnum" where
  "trueFunction x = Math_sin (js_mul (js_mul x Math_PI) (Fin 0.5))"

text \<open>
  The closure \<open>pseudoRandom\<close> reads and then increments the variable \<open>currentSeed\<close> of
  the enclosing call (\<open>Math.sin(currentSeed++)\<close>): it takes the variable's value and
  returns the sample with the new value. The variable holds a double, and the
  increment is the rounded sum: from \<open>2 ^ 53\<close> on it no longer advances by one.
\<close>

definition pseudoRandom :: "jsnum \<Rightarrow> jsnum \<times> jsnum" where
  "pseudoRandom currentSeed =
     (let x = js_mul (Math_sin currentSeed) (Fin 10000)
      in (js_sub x (Math_floor x), dbl_add currentSeed (Fin 1)))"

text \<open>
  The \<open>for\<close> loop of \<open>generateTrainingData\<close>, on its state: the counter \<open>i\<close>, the
  generator's \<open>currentSeed\<close> and the array \<open>data\<close> filled so far.
\<close>

function generateTrainingData_loop ::
  "int \<Rightarrow> jsnum \<Rightarrow> int \<Rightarrow> jsnum \<Rightarrow> DataPoint list \<Rightarrow> DataPoint list" where
  "generateTrainingData_loop numPoints noiseLevel i currentSeed data =
     (if i < numPoints then
        let x = js_add (Fin (- 2))
                  (js_div (js_mul (Fin 4) (Fin (of_int i)))
                          (js_sub (Fin (of_int numPoints)) (Fin 1)));
            (r, currentSeed') = pseudoRandom currentSeed;
            noise = js_mul (js_mul (js_sub r (Fin 0.5)) noiseLevel) (Fin 2);
            y = js_add (trueFunction x) noise
        in generateTrainingData_loop numPoints noiseLevel (i + 1) currentSeed'
             (data @ [\<lparr>xval = x, yval = y\<rparr>])
      else data)"
  by pat_completeness auto
termination
  by (relation "measure (\<lambda>(numPoints, noiseLevel, i, currentSeed, data). nat (numPoints - i))")
     (auto simp: pseudoRandom_def Let_def)

declare generateTrainingData_loop.simps [simp del]

definition generateTrainingData :: "int \<Rightarrow> jsnum \<Rightarrow> int \<Rightarrow> DataPoint list" where
  "generateTrainingData numPoints noiseLevel seed =
     generateTrainingData_loop numPoints noiseLevel 0 (Fin (of_int seed)) []"

text \<open>
  The loop of \<open>getLineData\<close>, in double arithmetic; \<open>domain\<close> is the pair
  \<open>[domain[0], domain[1]]\<close>.
\<close>

function getLineData_loop ::
  "(jsnum \<Rightarrow> jsnum) \<Rightarrow> jsnum \<times> jsnum \<Rightarrow> int \<Rightarrow> jsnum \<Rightarrow> int \<Rightarrow> DataPoint list
     \<Rightarrow> DataPoint list" where
  "getLineData_loop f domain steps stepSize i data =
     (if i \<le> steps then
        let x = dbl_add (fst domain) (dbl_mul (Fin (of_int i)) stepSize);
            y = f x
        in getLineData_loop f domain steps stepSize (i + 1) (data @ [\<lparr>xval = x, yval = y\<rparr>])
      else data)"
  by pat_completeness auto
termination
  by (relation "measure (\<lambda>(f, domain, steps, stepSize, i, data). nat (steps + 1 - i))") auto

declare getLineData_loop.simps [simp del]

definition getLineData :: "(jsnum \<Rightarrow> jsnum) \<Rightarrow> jsnum \<times> jsnum \<Rightarrow> int \<Rightarrow> DataPoint list" where
  "getLineData f domain steps =
     (let stepSize = dbl_div (dbl_sub (snd domain) (fst domain)) (Fin (of_int steps))
      in getLineData_loop f domain steps stepSize 0 [])"

subsection \<open>The description texts\<close>

definition underfitting_text :: string where
  "underfitting_text = ''Underfitting: The model is too simple (a straight line) and cannot capture the underlying curved trend in the data, resulting in high error on both training and new data.''"

definition overfitting_text :: string where
  "overfitting_text = ''Overfitting: The model is overly complex. It learns the noise in the training data, not just the signal. This model will perform poorly on new, unseen data because it has memorized the training set's quirks.''"

definition good_fit_text :: string where
  "good_fit_text = ''Good Fit: The model complexity is appropriate for the data. It captures the underlying trend without fitting the noise, achieving good generalization.''"

definition l1_text :: string where
  "l1_text = ''L1 Regularization (Lasso) is applied. It penalizes the absolute size of coefficients. Notice how it can shrink the 'wiggles' (analogous to coefficients) to exactly zero, simplifying the model and performing feature selection.''"

definition l2_text :: string where
  "l2_text = ''L2 Regularization (Ridge) is applied. It penalizes the squared size of coefficients. It shrinks the 'wiggles' towards zero but rarely makes them exactly zero, preventing any single feature from dominating.''"

definition low_complexity_suffix :: string where
  "low_complexity_suffix = '' With a low-complexity model, regularization has a smaller effect but still helps prevent overfitting.''"

definition high_complexity_suffix :: string where
  "high_complexity_suffix = '' The regularization penalty effectively smooths the overfitted curve, leading to better generalization on unseen data.''"

subsection \<open>\<open>calculateModelFunction\<close>\<close>

text \<open>
  The body of the \<open>forEach\<close> of the least-squares branch, on the four running sums
  \<open>(sumX, sumY, sumXY, sumX2)\<close>, in double arithmetic as the rest of that branch.
\<close>

definition accumulate ::
  "DataPoint \<Rightarrow> jsnum \<times> jsnum \<times> jsnum \<times> jsnum \<Rightarrow> jsnum \<times> jsnum \<times> jsnum \<times> jsnum" where
  "accumulate p s =
     (case s of (sumX, sumY, sumXY, sumX2) \<Rightarrow>
        (dbl_add sumX (xval p),
         dbl_add sumY (yval p),
         dbl_add sumXY (dbl_mul (xval p) (yval p)),
         dbl_add sumX2 (dbl_mul (xval p) (xval p))))"

definition wiggle_of :: "jsnum \<Rightarrow> int \<Rightarrow> jsnum \<Rightarrow> jsnum" where
  \<comment> \<open>\<open>noise * 0.7 * Math.sin(x * Math.PI * complexity / 2)\<close>, written out three times in the source\<close>
  "wiggle_of noise complexity x =
     js_mul (js_mul noise (Fin 0.7))
       (Math_sin (js_div (js_mul (js_mul x Math_PI) (Fin (of_int complexity))) (Fin 2)))"

definition baseOverfitModel :: "jsnum \<Rightarrow> int \<Rightarrow> jsnum \<Rightarrow> jsnum" where
  "baseOverfitModel noise complexity x =
     (let wiggle = wiggle_of noise complexity x
      in js_add (trueFunction x) wiggle)"

definition calculateModelFunction ::
  "DataPoint list \<Rightarrow> int \<Rightarrow> RegularizationType \<Rightarrow> jsnum \<Rightarrow> jsnum \<Rightarrow> FittedModel" where
  "calculateModelFunction data complexity regType regStrength noise =
     (if complexity \<le> 1 then
        (case fold accumulate data (Fin 0, Fin 0, Fin 0, Fin 0) of
           (sumX, sumY, sumXY, sumX2) \<Rightarrow>
             let n = Fin (of_nat (length data));
                 m = dbl_div (dbl_sub (dbl_mul n sumXY) (dbl_mul sumX sumY))
                             (dbl_sub (dbl_mul n sumX2) (dbl_mul sumX sumX));
                 b = dbl_div (dbl_sub sumY (dbl_mul m sumX)) n
             in \<lparr>model = (\<lambda>x. dbl_add (dbl_mul m x) b), description = underfitting_text\<rparr>)
      else
        let fitted =
          (case regType of
             L1 \<Rightarrow>
               \<lparr>model = (\<lambda>x.
                   let wiggle = wiggle_of noise complexity x;
                       regularizedWiggle =
                         js_mul (Math_sign wiggle)
                           (Math_max (Fin 0)
                              (js_sub (Math_abs wiggle) (js_mul regStrength (Fin 0.05))))
                   in js_add (trueFunction x) regularizedWiggle),
                 description = (if js_eq regStrength (Fin 0) then overfitting_text else l1_text)\<rparr>
           | L2 \<Rightarrow>
               \<lparr>model = (\<lambda>x.
                   let wiggle = wiggle_of noise complexity x;
                       regularizedWiggle =
                         js_div wiggle (js_add (Fin 1) (js_mul regStrength (Fin 0.5)))
                   in js_add (trueFunction x) regularizedWiggle),
                 description = (if js_eq regStrength (Fin 0) then overfitting_text else l2_text)\<rparr>
           | RegNone \<Rightarrow>
               \<lparr>model = baseOverfitModel noise complexity,
                 description = (if complexity > 5 then overfitting_text else good_fit_text)\<rparr>)
        in if js_gt regStrength (Fin 0) \<and> regType \<noteq> RegNone then
             (if complexity \<le> 5
              then fitted\<lparr>description := description fitted @ low_complexity_suffix\<rparr>
              else fitted\<lparr>description := description fitted @ high_complexity_suffix\<rparr>)
           else fitted)"

section \<open>Notions used to state the properties\<close>


text \<open>
  The point that one pass through the body of the loop of \<open>generateTrainingData\<close>
  pushes, for the counter \<open>i\<close> and the value of \<open>currentSeed\<close> that the pass finds.
\<close>

definition training_point :: "int \<Rightarrow> jsnum \<Rightarrow> jsnum \<Rightarrow> int \<Rightarrow> DataPoint" where
  "training_point numPoints noiseLevel currentSeed i =
     (let x = js_add (Fin (- 2))
                (js_div (js_mul (Fin 4) (Fin (of_int i)))
                        (js_sub (Fin (of_int numPoints)) (Fin 1)));
          r = fst (pseudoRandom currentSeed);
          noise = js_mul (js_mul (js_sub r (Fin 0.5)) noiseLevel) (Fin 2);
          y = js_add (trueFunction x) noise
      in \<lparr>xval = x, yval = y\<rparr>)"

text \<open>A training set all of whose coordinates are finite numbers.\<close>

definition finite_points :: "(real \<times> real) list \<Rightarrow> DataPoint list" where
  "finite_points pts = map (\<lambda>(a, b). \<lparr>xval = Fin a, yval = Fin b\<rparr>) pts"

text \<open>A number that is neither \<open>NaN\<close> nor an infinity.\<close>

fun is_finite :: "jsnum \<Rightarrow> bool" where
  "is_finite (Fin x) = True"
| "is_finite v = False"

text \<open>The x-values of a sequence of points increase strictly, by the comparison \<open>>\<close>.\<close>

definition strictly_increasing_x :: "DataPoint list \<Rightarrow> bool" where
  "strictly_increasing_x pts = sorted_wrt (\<lambda>p q. js_gt (xval q) (xval p)) pts"

text \<open>
  The normal equations as the specification writes them,
  \<open>m = (n\<Sigma>xy - \<Sigma>x\<Sigma>y) / (n\<Sigma>x\<^sup>2 - (\<Sigma>x)\<^sup>2)\<close> and \<open>b = (\<Sigma>y - m\<Sigma>x) / n\<close>, every sum taken
  in the order of the training set and every operation in double arithmetic.
\<close>

definition dbl_sum :: "jsnum list \<Rightarrow> jsnum" where
  "dbl_sum xs = foldl dbl_add (Fin 0) xs"

definition normal_equations_slope :: "DataPoint list \<Rightarrow> jsnum" where
  "normal_equations_slope data =
     (let n = Fin (of_nat (length data));
          sx = dbl_sum (map xval data);
          sy = dbl_sum (map yval data);
          sxy = dbl_sum (map (\<lambda>p. dbl_mul (xval p) (yval p)) data);
          sxx = dbl_sum (map (\<lambda>p. dbl_mul (xval p) (xval p)) data)
      in dbl_div (dbl_sub (dbl_mul n sxy) (dbl_mul sx sy))
                 (dbl_sub (dbl_mul n sxx) (dbl_mul sx sx)))"

definition normal_equations_intercept :: "DataPoint list \<Rightarrow> jsnum" where
  "normal_equations_intercept data =
     (let n = Fin (of_nat (length data));
          sx = dbl_sum (map xval data);
          sy = dbl_sum (map yval data)
      in dbl_div (dbl_sub sy (dbl_mul (normal_equations_slope data) sx)) n)"

section \<open>Arithmetic on finite numbers\<close>




section \<open>The fit engine above complexity 1\<close>

subsection \<open>Zero strength\<close>

text \<open>
  With strength \<open>0\<close> the soft threshold and the decay factor leave every wiggle as it
  is, also an infinite one or \<open>NaN\<close>.
\<close>

lemma soft_threshold_zero:
  "js_mul (Math_sign w) (Math_max (Fin 0) (js_sub (Math_abs w) (Fin 0))) = w"
  by (cases w) (simp_all add: js_sub_def sgn_real_def inf_of_sign_def)

lemma decay_zero: "js_div w (Fin 1) = w"
  by (cases w) simp_all

lemma zero_strength_model:
  assumes "1 < complexity" and "regType = L1 \<or> regType = L2"
  shows "model (calculateModelFunction data complexity regType (Fin 0) noise) x =
         model (calculateModelFunction data' complexity RegNone (Fin 0) noise) x"
  using assms
  by (auto simp: calculateModelFunction_def baseOverfitModel_def Let_def
        soft_threshold_zero decay_zero)

lemma zero_strength_description_high:
  assumes "5 < complexity" and "regType = L1 \<or> regType = L2"
  shows "description (calculateModelFunction data complexity regType (Fin 0) noise) =
         description (calculateModelFunction data' complexity RegNone (Fin 0) noise)"
  using assms
  by (auto simp: calculateModelFunction_def)

text \<open>
  Claim C1: with \<open>regStrength = 0\<close>, the kinds \<open>l1\<close> and \<open>l2\<close> behave as the kind
  \<open>none\<close> does: the fitted functions are pointwise equal and the descriptions are
  equal. The fitted functions are equal (\<open>zero_strength_model\<close>), and so are the
  descriptions above complexity 5 (\<open>zero_strength_description_high\<close>). At complexity
  3 they are not: the zero-strength override of the \<open>L1\<close> and \<open>L2\<close> cases assigns the
  overfitting text without the test \<open>complexity > 5\<close> that the default case makes, so
  the same curve is described as overfitting under \<open>l1\<close> and \<open>l2\<close> and as a good
  fit under \<open>none\<close>.
\<close>

theorem zero_strength_description_low_complexity:
  "description (calculateModelFunction data 3 L1 (Fin 0) noise) = overfitting_text \<and>
   description (calculateModelFunction data 3 L2 (Fin 0) noise) = overfitting_text \<and>
   description (calculateModelFunction data 3 RegNone (Fin 0) noise) = good_fit_text \<and>
   overfitting_text \<noteq> good_fit_text"
  by (simp add: calculateModelFunction_def overfitting_text_def good_fit_text_def)

subsection \<open>The training set is not read\<close>

text \<open>
  Claim C4: for every complexity above 1 and fixed complexity, kind, strength and
  noise level, the result of the fit (the fitted function and the description) is
  the same for any two training sets.
\<close>

theorem fit_independent_of_training_set:
  "1 < complexity \<Longrightarrow>
   calculateModelFunction data1 complexity regType regStrength noise =
   calculateModelFunction data2 complexity regType regStrength noise"
  by (simp add: calculateModelFunction_def)

theorem fit_independent_of_training_set_witness:
  "(1::int) < 10 \<and>
   calculateModelFunction [] 10 L1 (Fin 1) (Fin 0.5) =
   calculateModelFunction [\<lparr>xval = Fin 0, yval = Fin 1\<rparr>] 10 L1 (Fin 1) (Fin 0.5)"
  using fit_independent_of_training_set
          [of 10 "[]" L1 "Fin 1" "Fin 0.5" "[\<lparr>xval = Fin 0, yval = Fin 1\<rparr>]"]
  by simp

subsection \<open>Shrinkage\<close>





section \<open>Properties of rounding\<close>

text \<open>
  The rounded value of a real in a known binade, the doubles that rounding leaves
  unchanged (among them the integers up to \<open>2 ^ 53\<close> in magnitude), and the error
  of rounding.
\<close>

lemma round_half_even_of_int: "round_half_even (of_int k) = k"
  by (simp add: round_half_even_def)

lemma round_half_even_cases:
  "round_half_even q = \<lfloor>q\<rfloor> \<and> q - of_int \<lfloor>q\<rfloor> \<le> 1 / 2 \<or>
   round_half_even q = \<lfloor>q\<rfloor> + 1 \<and> 1 / 2 \<le> q - of_int \<lfloor>q\<rfloor>"
  by (auto simp: round_half_even_def Let_def)

lemma round_half_even_close: "\<bar>of_int (round_half_even q) - q\<bar> \<le> 1 / 2"
proof -
  have "of_int \<lfloor>q\<rfloor> \<le> q" and "q < of_int \<lfloor>q\<rfloor> + 1" by linarith+
  then show ?thesis using round_half_even_cases [of q] by auto
qed

lemma round_half_even_abs_le:
  assumes "\<bar>q\<bar> \<le> of_int N"
  shows "\<bar>round_half_even q\<bar> \<le> N"
proof -
  have lo: "- N \<le> \<lfloor>q\<rfloor>" using assms by (simp add: le_floor_iff abs_le_iff)
  have hi: "\<lfloor>q\<rfloor> \<le> N" using assms by (simp add: floor_le_iff abs_le_iff)
  consider "round_half_even q = \<lfloor>q\<rfloor>"
    | "round_half_even q = \<lfloor>q\<rfloor> + 1" and "1 / 2 \<le> q - of_int \<lfloor>q\<rfloor>"
    using round_half_even_cases [of q] by blast
  then show ?thesis
  proof cases
    case 1
    then show ?thesis using lo hi by simp
  next
    case 2
    then have "of_int \<lfloor>q\<rfloor> < q" by linarith
    then have "of_int \<lfloor>q\<rfloor> < (of_int N :: real)" using assms by linarith
    then have "\<lfloor>q\<rfloor> < N" by simp
    then show ?thesis using 2 lo by simp
  qed
qed

lemma two_powi_pos: "0 < (2::real) powi n"
  by (simp add: power_int_def)

lemma two_powi_add: "(2::real) powi a * 2 powi b = 2 powi (a + b)"
  by (simp add: power_int_add)

lemma two_powi_diff: "(2::real) powi a / 2 powi b = 2 powi (a - b)"
  by (simp add: power_int_diff)

lemma two_powi_mono: "a \<le> b \<Longrightarrow> (2::real) powi a \<le> 2 powi b"
  by (rule power_int_increasing) simp_all

lemma floor_log2_eq:
  assumes "2 powi j \<le> x" and "x < 2 powi (j + 1)"
  shows "\<lfloor>log 2 x\<rfloor> = j"
proof -
  have x: "0 < x" using assms(1) two_powi_pos [of j] by linarith
  have a: "(2::real) powr real_of_int j = 2 powi j"
    by (rule powr_real_of_int') auto
  have b: "(2::real) powr real_of_int (j + 1) = 2 powi (j + 1)"
    by (rule powr_real_of_int') auto
  have "2 powr real_of_int j \<le> x \<and> x < 2 powr real_of_int (j + 1)"
    using assms unfolding a b by simp
  moreover have "(\<lfloor>log 2 x\<rfloor> = j) =
      (2 powr real_of_int j \<le> x \<and> x < 2 powr real_of_int (j + 1))"
    using x by (intro floor_log_eq_powr_iff) simp_all
  ultimately show ?thesis by blast
qed

lemma floor_log2_bounds:
  assumes "0 < x"
  shows "2 powi \<lfloor>log 2 x\<rfloor> \<le> x \<and> x < 2 powi (\<lfloor>log 2 x\<rfloor> + 1)"
proof -
  let ?j = "\<lfloor>log 2 x\<rfloor>"
  have a: "(2::real) powr real_of_int ?j = 2 powi ?j"
    by (rule powr_real_of_int') auto
  have b: "(2::real) powr real_of_int (?j + 1) = 2 powi (?j + 1)"
    by (rule powr_real_of_int') auto
  have "(\<lfloor>log 2 x\<rfloor> = ?j) =
      (2 powr real_of_int ?j \<le> x \<and> x < 2 powr real_of_int (?j + 1))"
    using assms by (intro floor_log_eq_powr_iff) simp_all
  then have "2 powr real_of_int ?j \<le> x \<and> x < 2 powr real_of_int (?j + 1)"
    by blast
  then show ?thesis unfolding a b .
qed

lemma round_to_double_normal:
  assumes "2 powi j \<le> \<bar>x\<bar>" and "\<bar>x\<bar> < 2 powi (j + 1)" and "- 1022 \<le> j" and "j \<le> 1022"
  shows "round_to_double x =
           Fin (of_int (round_half_even (x / 2 powi (j - 52))) * 2 powi (j - 52))"
proof -
  let ?u = "(2::real) powi (j - 52)"
  let ?k = "round_half_even (x / ?u)"
  have "0 < \<bar>x\<bar>" using assms(1) two_powi_pos [of j] by linarith
  then have x0: "x \<noteq> 0" by simp
  have e: "max \<lfloor>log 2 \<bar>x\<bar>\<rfloor> (- 1022) = j"
    using floor_log2_eq [OF assms(1,2)] assms(3) by simp
  have u: "0 < ?u" by (rule two_powi_pos)
  have "\<bar>x / ?u\<bar> = \<bar>x\<bar> / ?u" using u by simp
  also have "\<dots> \<le> 2 powi (j + 1) / ?u"
    using assms(2) u by (simp add: divide_right_mono)
  also have "\<dots> = 2 powi ((j + 1) - (j - 52))"
    by (rule power_int_diff [symmetric]) simp
  also have "(j + 1) - (j - 52) = 53" by simp
  also have "(2::real) powi 53 = of_int (2 ^ 53)" by simp
  finally have "\<bar>?k\<bar> \<le> 2 ^ 53" by (rule round_half_even_abs_le)
  then have "\<bar>of_int ?k :: real\<bar> \<le> 2 ^ 53"
    by (metis of_int_abs of_int_le_iff of_int_numeral of_int_power)
  then have "\<bar>of_int ?k * ?u\<bar> \<le> 2 ^ 53 * ?u"
    using u by (simp add: abs_mult mult_right_mono)
  also have "(2::real) ^ 53 * ?u = 2 powi (j + 1)"
    using two_powi_add [of 53 "j - 52"] by (simp add: add.commute)
  also have "\<dots> \<le> 2 powi 1023"
    using assms(4) by (intro power_int_increasing) auto
  also have "\<dots> < 2 ^ 1024" by simp
  finally have "\<not> 2 ^ 1024 \<le> \<bar>of_int ?k * ?u\<bar>" by simp
  then show ?thesis
    using x0 by (simp add: round_to_double_def e Let_def)
qed


lemma scaled_round_close:
  fixes u :: real
  assumes "0 < u"
  shows "\<bar>of_int (round_half_even (x / u)) * u - x\<bar> \<le> (1 / 2) * u"
proof -
  have "of_int (round_half_even (x / u)) * u - x = (of_int (round_half_even (x / u)) - x / u) * u"
    using assms by (simp add: left_diff_distrib)
  then have "\<bar>of_int (round_half_even (x / u)) * u - x\<bar> =
             \<bar>of_int (round_half_even (x / u)) - x / u\<bar> * u"
    using assms by (simp add: abs_mult)
  also have "\<dots> \<le> (1 / 2) * u"
    using assms round_half_even_close [of "x / u"] by (intro mult_right_mono) auto
  finally show ?thesis .
qed

lemma round_to_double_subnormal:
  assumes "\<bar>x\<bar> < 2 powi (- 1022)"
  shows "round_to_double x =
           Fin (of_int (round_half_even (x / 2 powi (- 1074))) * 2 powi (- 1074))"
proof (cases "x = 0")
  case True
  then show ?thesis
    using round_half_even_of_int [of 0] by (simp add: round_to_double_def)
next
  case False
  let ?u = "(2::real) powi (- 1074)"
  let ?k = "round_half_even (x / ?u)"
  have pos: "0 < \<bar>x\<bar>" using False by simp
  have "\<lfloor>log 2 \<bar>x\<bar>\<rfloor> < - 1022"
  proof (rule ccontr)
    assume "\<not> \<lfloor>log 2 \<bar>x\<bar>\<rfloor> < - 1022"
    then have "- 1022 \<le> \<lfloor>log 2 \<bar>x\<bar>\<rfloor>" by linarith
    then have "(2::real) powi (- 1022) \<le> 2 powi \<lfloor>log 2 \<bar>x\<bar>\<rfloor>"
      by (rule two_powi_mono)
    then show False using floor_log2_bounds [OF pos] assms by linarith
  qed
  then have e: "max \<lfloor>log 2 \<bar>x\<bar>\<rfloor> (- 1022) = - 1022" by simp
  have u: "0 < ?u" by (rule two_powi_pos)
  have "\<bar>x / ?u\<bar> = \<bar>x\<bar> / ?u" using u by simp
  also have "\<dots> \<le> 2 powi (- 1022) / ?u"
    using assms u by (simp add: divide_right_mono)
  also have "\<dots> = of_int (2 ^ 52)"
    using two_powi_diff [of "- 1022" "- 1074"] by simp
  finally have "\<bar>?k\<bar> \<le> 2 ^ 52" by (rule round_half_even_abs_le)
  then have "\<bar>of_int ?k :: real\<bar> \<le> 2 ^ 52"
    by (metis of_int_abs of_int_le_iff of_int_numeral of_int_power)
  then have "\<bar>of_int ?k * ?u\<bar> \<le> 2 ^ 52 * ?u"
    using u by (simp add: abs_mult mult_right_mono)
  also have "(2::real) ^ 52 * ?u = 2 powi (- 1022)"
    using two_powi_add [of 52 "- 1074"] by simp
  also have "\<dots> \<le> 2 powi 0" by (intro power_int_increasing) auto
  also have "(2::real) powi 0 < 2 ^ 1024" by simp
  finally have "\<not> 2 ^ 1024 \<le> \<bar>of_int ?k * ?u\<bar>" by simp
  moreover have "- 1022 - 52 = (- 1074 :: int)" by simp
  ultimately show ?thesis
    using False by (simp add: round_to_double_def e Let_def)
qed

lemma two_powi_nonneg_int: "0 \<le> a \<Longrightarrow> (2::real) powi a = of_int (2 ^ nat a)"
  by (simp add: power_int_def)

lemma round_to_double_representable:
  assumes "\<bar>m\<bar> < 2 ^ 53" and "- 1074 \<le> c" and "c \<le> 970"
  shows "round_to_double (of_int m * 2 powi c) = Fin (of_int m * 2 powi c)"
proof (cases "m = 0")
  case True
  then show ?thesis by (simp add: round_to_double_def)
next
  case False
  let ?x = "of_int m * (2::real) powi c"
  have exact: "of_int (round_half_even (?x / 2 powi t)) * 2 powi t = ?x" if "t \<le> c" for t
  proof -
    have "?x / 2 powi t = of_int m * (2 powi c / 2 powi t)" by simp
    also have "\<dots> = of_int m * 2 powi (c - t)" by (simp only: two_powi_diff)
    also have "\<dots> = of_int (m * 2 ^ nat (c - t))"
      using that by (simp add: two_powi_nonneg_int)
    finally have q: "?x / 2 powi t = of_int (m * 2 ^ nat (c - t))" .
    have "of_int (round_half_even (?x / 2 powi t)) * 2 powi t = (?x / 2 powi t) * 2 powi t"
      unfolding q round_half_even_of_int ..
    also have "\<dots> = ?x" using two_powi_pos [of t] by simp
    finally show ?thesis .
  qed
  have "1 \<le> \<bar>m\<bar>" using False by linarith
  then have "(1::real) \<le> of_int \<bar>m\<bar>" by (simp only: of_int_1_le_iff)
  then have m1: "1 \<le> \<bar>of_int m :: real\<bar>" by simp
  have m2: "\<bar>of_int m :: real\<bar> < 2 ^ 53"
    using assms(1) by (metis of_int_abs of_int_less_iff of_int_numeral of_int_power)
  have absx: "\<bar>?x\<bar> = \<bar>of_int m\<bar> * 2 powi c"
    using two_powi_pos [of c] by (simp add: abs_mult)
  have "1 * 2 powi c \<le> \<bar>of_int m :: real\<bar> * 2 powi c"
    using m1 two_powi_pos [of c] by (intro mult_right_mono) auto
  then have lower: "2 powi c \<le> \<bar>?x\<bar>"
    unfolding absx by simp
  have "\<bar>?x\<bar> < 2 ^ 53 * 2 powi c"
    unfolding absx using m2 two_powi_pos [of c] by simp
  also have "(2::real) ^ 53 * 2 powi c = 2 powi (c + 53)"
    using two_powi_add [of 53 c] by (simp add: add.commute)
  finally have upper: "\<bar>?x\<bar> < 2 powi (c + 53)" .
  show ?thesis
  proof (cases "\<bar>?x\<bar> < 2 powi (- 1022)")
    case True
    show ?thesis
      unfolding round_to_double_subnormal [OF True] using exact [OF assms(2)] by simp
  next
    case False
    let ?j = "\<lfloor>log 2 \<bar>?x\<bar>\<rfloor>"
    have pos: "0 < \<bar>?x\<bar>" using lower two_powi_pos [of c] by linarith
    note b = floor_log2_bounds [OF pos]
    have j1: "- 1022 \<le> ?j"
    proof (rule ccontr)
      assume "\<not> - 1022 \<le> ?j"
      then have "?j + 1 \<le> - 1022" by linarith
      then have "(2::real) powi (?j + 1) \<le> 2 powi (- 1022)"
        by (rule two_powi_mono)
      then show False using b False by linarith
    qed
    have j2: "?j < c + 53"
    proof (rule ccontr)
      assume "\<not> ?j < c + 53"
      then have "c + 53 \<le> ?j" by linarith
      then have "(2::real) powi (c + 53) \<le> 2 powi ?j"
        by (rule two_powi_mono)
      then show False using b upper by linarith
    qed
    then have j3: "?j \<le> 1022" and t: "?j - 52 \<le> c" using assms(3) by linarith+
    show ?thesis
      unfolding round_to_double_normal [OF conjunct1 [OF b] conjunct2 [OF b] j1 j3]
      using exact [OF t] by simp
  qed
qed

lemma round_to_double_of_int:
  assumes "\<bar>k\<bar> \<le> 2 ^ 53"
  shows "round_to_double (of_int k) = Fin (of_int k)"
proof (cases "\<bar>k\<bar> < 2 ^ 53")
  case True
  then show ?thesis using round_to_double_representable [of k 0] by simp
next
  case False
  then have "k = 2 ^ 53 \<or> k = - (2 ^ 53)" using assms by linarith
  then have "(of_int k :: real) = of_int (k div 2) * 2 powi 1" and "\<bar>k div 2\<bar> < 2 ^ 53"
    by auto
  then show ?thesis using round_to_double_representable [of "k div 2" 1] by simp
qed

lemma round_to_double_close:
  assumes "\<bar>x\<bar> < 2 powi 1023"
  shows "\<exists>y. round_to_double x = Fin y \<and> \<bar>y - x\<bar> \<le> \<bar>x\<bar> * 2 powi (- 53) + 2 powi (- 1075)"
proof (cases "\<bar>x\<bar> < 2 powi (- 1022)")
  case True
  let ?u = "(2::real) powi (- 1074)"
  let ?y = "of_int (round_half_even (x / ?u)) * ?u"
  have u: "0 < ?u" by (rule two_powi_pos)
  have "\<bar>?y - x\<bar> \<le> (1 / 2) * ?u"
    using u by (rule scaled_round_close)
  also have "(1 / 2) * ?u = 2 powi (- 1) * 2 powi (- 1074)" by simp
  also have "\<dots> = 2 powi (- 1075)"
    by (simp only: two_powi_add) simp
  finally have "\<bar>?y - x\<bar> \<le> 2 powi (- 1075)" .
  moreover have "0 \<le> \<bar>x\<bar> * 2 powi (- 53)"
    using two_powi_pos [of "- 53"] by (intro mult_nonneg_nonneg) auto
  ultimately have "\<bar>?y - x\<bar> \<le> \<bar>x\<bar> * 2 powi (- 53) + 2 powi (- 1075)"
    by linarith
  then show ?thesis using round_to_double_subnormal [OF True] by blast
next
  case False
  let ?j = "\<lfloor>log 2 \<bar>x\<bar>\<rfloor>"
  let ?u = "(2::real) powi (?j - 52)"
  let ?y = "of_int (round_half_even (x / ?u)) * ?u"
  have pos: "0 < \<bar>x\<bar>" using False two_powi_pos [of "- 1022"] by linarith
  note b = floor_log2_bounds [OF pos]
  have j1: "- 1022 \<le> ?j"
  proof (rule ccontr)
    assume "\<not> - 1022 \<le> ?j"
    then have "?j + 1 \<le> - 1022" by linarith
    then have "(2::real) powi (?j + 1) \<le> 2 powi (- 1022)"
      by (rule two_powi_mono)
    then show False using b False by linarith
  qed
  have j3: "?j \<le> 1022"
  proof (rule ccontr)
    assume "\<not> ?j \<le> 1022"
    then have "1023 \<le> ?j" by linarith
    then have "(2::real) powi 1023 \<le> 2 powi ?j"
      by (rule two_powi_mono)
    then show False using b assms by linarith
  qed
  have u: "0 < ?u" by (rule two_powi_pos)
  have "\<bar>?y - x\<bar> \<le> (1 / 2) * ?u"
    using u by (rule scaled_round_close)
  also have "(1 / 2) * ?u = 2 powi (- 1) * 2 powi (?j - 52)" by simp
  also have "\<dots> = 2 powi ?j * 2 powi (- 53)"
    by (simp only: two_powi_add) simp
  also have "\<dots> \<le> \<bar>x\<bar> * 2 powi (- 53)"
    using b two_powi_pos [of "- 53"] by (intro mult_right_mono) auto
  finally have "\<bar>?y - x\<bar> \<le> \<bar>x\<bar> * 2 powi (- 53) + 2 powi (- 1075)"
    using two_powi_pos [of "- 1075"] by linarith
  then show ?thesis
    using round_to_double_normal [OF conjunct1 [OF b] conjunct2 [OF b] j1 j3] by blast
qed

lemma dbl_add_Fin: "dbl_add (Fin a) (Fin b) = round_to_double (a + b)"
  by (simp add: dbl_add_def)

lemma dbl_sub_Fin: "dbl_sub (Fin a) (Fin b) = round_to_double (a - b)"
  by (simp add: dbl_sub_def js_sub_def)

lemma dbl_mul_Fin: "dbl_mul (Fin a) (Fin b) = round_to_double (a * b)"
  by (simp add: dbl_mul_def)

lemma dbl_div_Fin: "b \<noteq> 0 \<Longrightarrow> dbl_div (Fin a) (Fin b) = round_to_double (a / b)"
  by (simp add: dbl_div_def)

lemma round_to_double_zero: "round_to_double 0 = Fin 0"
  by (simp add: round_to_double_def)


section \<open>The training set\<close>

text \<open>The loop pushes one \<open>training_point\<close> per pass and increments the seed.\<close>

lemma generateTrainingData_loop_step:
  "i < n \<Longrightarrow> generateTrainingData_loop n l i cs data =
     generateTrainingData_loop n l (i + 1) (dbl_add cs (Fin 1)) (data @ [training_point n l cs i])"
  by (subst generateTrainingData_loop.simps)
     (simp add: training_point_def pseudoRandom_def Let_def)

lemma generateTrainingData_loop_exit:
  "\<not> i < n \<Longrightarrow> generateTrainingData_loop n l i cs data = data"
  by (subst generateTrainingData_loop.simps) simp

lemma generateTrainingData_loop_eq:
  "generateTrainingData_loop n l i cs data =
     data @ map (\<lambda>j. training_point n l (((\<lambda>c. dbl_add c (Fin 1)) ^^ nat (j - i)) cs) j) [i..n - 1]"
proof (induction "nat (n - i)" arbitrary: i cs data)
  case 0
  then have "\<not> i < n" by simp
  then show ?case by (simp add: generateTrainingData_loop_exit)
next
  case (Suc k)
  let ?f = "\<lambda>c. dbl_add c (Fin 1)"
  from Suc have lt: "i < n" and k: "k = nat (n - (i + 1))" by linarith+
  have u: "[i..n - 1] = i # [i + 1..n - 1]"
    using lt by (simp add: upto_rec1)
  have shift: "(?f ^^ nat (j - (i + 1))) (?f cs) = (?f ^^ nat (j - i)) cs"
    if "j \<in> set [i + 1..n - 1]" for j
  proof -
    from that have "i + 1 \<le> j" by simp
    then have "nat (j - i) = Suc (nat (j - (i + 1)))" by linarith
    then show ?thesis by (simp only: funpow_Suc_right o_apply)
  qed
  have "generateTrainingData_loop n l i cs data =
        (data @ [training_point n l cs i]) @
          map (\<lambda>j. training_point n l ((?f ^^ nat (j - (i + 1))) (?f cs)) j) [i + 1..n - 1]"
    using Suc.hyps(1) [OF k] by (simp add: generateTrainingData_loop_step [OF lt])
  also have "map (\<lambda>j. training_point n l ((?f ^^ nat (j - (i + 1))) (?f cs)) j) [i + 1..n - 1] =
             map (\<lambda>j. training_point n l ((?f ^^ nat (j - i)) cs) j) [i + 1..n - 1]"
    by (rule map_cong [OF refl]) (simp only: shift)
  finally show ?case by (simp add: u)
qed

lemma generateTrainingData_eq:
  "generateTrainingData n l s =
     map (\<lambda>j. training_point n l (((\<lambda>c. dbl_add c (Fin 1)) ^^ nat j) (Fin (of_int s))) j) [0..n - 1]"
  by (simp add: generateTrainingData_def generateTrainingData_loop_eq)



lemma increment_stalls: "dbl_add (Fin (2 ^ 53)) (Fin 1) = Fin (2 ^ 53)"
  using round_to_double_normal [of 53 "2 ^ 53 + 1"]
  by (simp add: dbl_add_Fin round_half_even_def)






section \<open>Determinism of the training set\<close>





lemma generateTrainingData_one:
  "generateTrainingData 1 noiseLevel seed = [\<lparr>xval = NaN, yval = NaN\<rparr>]"
  by (simp add: generateTrainingData_eq upto_rec1 training_point_def Let_def js_sub_def
        inf_of_sign_def trueFunction_def Math_PI_def)

section \<open>The noise generator\<close>









section \<open>The least-squares branch\<close>

text \<open>Rules that evaluate double arithmetic on small whole numbers.\<close>

lemma round_to_double_numeral:
  "(numeral w :: int) \<le> 2 ^ 53 \<Longrightarrow> round_to_double (numeral w) = Fin (numeral w)"
  using round_to_double_of_int [of "numeral w"] by simp

lemma round_to_double_neg_numeral:
  "(numeral w :: int) \<le> 2 ^ 53 \<Longrightarrow> round_to_double (- numeral w) = Fin (- numeral w)"
  using round_to_double_of_int [of "- numeral w"] by simp

lemma round_to_double_one: "round_to_double 1 = Fin 1"
  using round_to_double_of_int [of 1] by simp

lemmas dbl_eval =
  dbl_add_def dbl_sub_def dbl_mul_def dbl_div_def js_sub_def inf_of_sign_def
  round_to_double_zero round_to_double_one round_to_double_numeral round_to_double_neg_numeral

text \<open>The four running sums of the loop are the four sums of the normal equations.\<close>

lemma fold_accumulate_sums:
  "fold accumulate data (a, b, c, d) =
     (foldl dbl_add a (map xval data),
      foldl dbl_add b (map yval data),
      foldl dbl_add c (map (\<lambda>p. dbl_mul (xval p) (yval p)) data),
      foldl dbl_add d (map (\<lambda>p. dbl_mul (xval p) (xval p)) data))"
  by (induction data arbitrary: a b c d) (simp_all add: accumulate_def)

text \<open>
  Claim C8 as the code computes it: for every training set, the fit with
  \<open>complexity \<le> 1\<close> returns the underfitting text and the function
  \<open>x \<mapsto> m * x + b\<close> whose slope and intercept are the normal equations
  \<open>m = (n * sum(xy) - sum(x) * sum(y)) / (n * sum(x * x) - sum(x) * sum(x))\<close> and
  \<open>b = (sum(y) - m * sum(x)) / n\<close>, every operation being the rounded one of a double.
  That two x-values differ does not make the rounded denominator differ from zero
  (see the counterexample), so \<open>m\<close> and \<open>b\<close> need not be finite numbers.
\<close>

theorem least_squares_normal_equations:
  assumes "complexity \<le> 1"
  shows "model (calculateModelFunction data complexity regType regStrength noise) x =
           dbl_add (dbl_mul (normal_equations_slope data) x) (normal_equations_intercept data) \<and>
         description (calculateModelFunction data complexity regType regStrength noise) =
           underfitting_text"
  using assms
  by (simp add: calculateModelFunction_def fold_accumulate_sums normal_equations_slope_def
        normal_equations_intercept_def dbl_sum_def Let_def)

theorem least_squares_normal_equations_witness:
  "(1::int) \<le> 1 \<and>
   model (calculateModelFunction [\<lparr>xval = Fin 0, yval = Fin 1\<rparr>, \<lparr>xval = Fin 1, yval = Fin 3\<rparr>]
            1 RegNone (Fin 0) (Fin 0.5)) (Fin 5) = Fin 11 \<and>
   normal_equations_slope [\<lparr>xval = Fin 0, yval = Fin 1\<rparr>, \<lparr>xval = Fin 1, yval = Fin 3\<rparr>] = Fin 2 \<and>
   normal_equations_intercept [\<lparr>xval = Fin 0, yval = Fin 1\<rparr>, \<lparr>xval = Fin 1, yval = Fin 3\<rparr>] = Fin 1 \<and>
   description (calculateModelFunction [\<lparr>xval = Fin 0, yval = Fin 1\<rparr>, \<lparr>xval = Fin 1, yval = Fin 3\<rparr>]
            1 RegNone (Fin 0) (Fin 0.5)) = underfitting_text"
proof -
  let ?d = "[\<lparr>xval = Fin 0, yval = Fin 1\<rparr>, \<lparr>xval = Fin 1, yval = Fin 3\<rparr>]"
  have m: "normal_equations_slope ?d = Fin 2"
    by (simp add: normal_equations_slope_def dbl_sum_def dbl_eval)
  have b: "normal_equations_intercept ?d = Fin 1"
    by (simp add: normal_equations_intercept_def m dbl_sum_def dbl_eval)
  show ?thesis
    using least_squares_normal_equations [of 1 ?d RegNone "Fin 0" "Fin 0.5" "Fin 5"]
    by (simp add: m b dbl_eval)
qed

text \<open>
  Claim C8 says that two distinct x-values give an affine function with the slope and
  intercept of the normal equations. On the points \<open>(10\<^sup>8, 0)\<close> and \<open>(10\<^sup>8 + 1, 1)\<close> the
  exact line has slope 1 and intercept \<open>- 10\<^sup>8\<close>; in double arithmetic
  \<open>sum(x) * sum(x) = 40000000400000001\<close> is rounded to \<open>n * sum(x * x)\<close>, the
  denominator is 0, the slope is \<open>1 / 0 = Infinity\<close>, and the returned function is
  \<open>NaN\<close> at 5.
\<close>

theorem distinct_x_with_zero_denominator:
  "Fin 100000000 \<noteq> Fin 100000001 \<and>
   normal_equations_slope
     [\<lparr>xval = Fin 100000000, yval = Fin 0\<rparr>, \<lparr>xval = Fin 100000001, yval = Fin 1\<rparr>] = PInf \<and>
   model (calculateModelFunction
            [\<lparr>xval = Fin 100000000, yval = Fin 0\<rparr>, \<lparr>xval = Fin 100000001, yval = Fin 1\<rparr>]
            1 RegNone (Fin 0) (Fin 0.5)) (Fin 5) = NaN"
proof -
  have r1: "round_to_double 10000000000000000 = Fin 10000000000000000"
    using round_to_double_normal [of 53 10000000000000000] by (simp add: round_half_even_def)
  have r2: "round_to_double 10000000200000001 = Fin 10000000200000000"
    using round_to_double_normal [of 53 10000000200000001] by (simp add: round_half_even_def)
  have r3: "round_to_double 20000000200000000 = Fin 20000000200000000"
    using round_to_double_normal [of 54 20000000200000000] by (simp add: round_half_even_def)
  have r4: "round_to_double 40000000400000000 = Fin 40000000400000000"
    using round_to_double_normal [of 55 40000000400000000] by (simp add: round_half_even_def)
  have r5: "round_to_double 40000000400000001 = Fin 40000000400000000"
    using round_to_double_normal [of 55 40000000400000001] by (simp add: round_half_even_def)
  show ?thesis
    by (simp add: calculateModelFunction_def accumulate_def normal_equations_slope_def
          dbl_sum_def dbl_eval r1 r2 r3 r4 r5)
qed

section \<open>Division by zero\<close>

lemma foldl_dbl_add_zeros:
  "\<forall>v\<in>set vs. v = Fin 0 \<Longrightarrow> foldl dbl_add (Fin 0) vs = Fin 0"
  by (induction vs) (simp_all add: dbl_add_Fin round_to_double_zero)

lemma zero_x_sums:
  assumes "\<forall>p\<in>set pts. fst p = 0"
  shows "dbl_sum (map xval (finite_points pts)) = Fin 0"
    and "dbl_sum (map (\<lambda>p. dbl_mul (xval p) (yval p)) (finite_points pts)) = Fin 0"
    and "dbl_sum (map (\<lambda>p. dbl_mul (xval p) (xval p)) (finite_points pts)) = Fin 0"
proof -
  have x0: "a = 0" if "(a, b) \<in> set pts" for a b
    using assms that by force
  show "dbl_sum (map xval (finite_points pts)) = Fin 0"
    unfolding dbl_sum_def
    by (rule foldl_dbl_add_zeros) (auto simp: finite_points_def dest: x0)
  show "dbl_sum (map (\<lambda>p. dbl_mul (xval p) (yval p)) (finite_points pts)) = Fin 0"
    unfolding dbl_sum_def
    by (rule foldl_dbl_add_zeros)
       (auto simp: finite_points_def dbl_mul_Fin round_to_double_zero dest: x0)
  show "dbl_sum (map (\<lambda>p. dbl_mul (xval p) (xval p)) (finite_points pts)) = Fin 0"
    unfolding dbl_sum_def
    by (rule foldl_dbl_add_zeros)
       (auto simp: finite_points_def dbl_mul_Fin round_to_double_zero dest: x0)
qed

lemma js_add_NaN_right: "js_add v NaN = NaN"
  by (cases v) simp_all

lemma zero_over_zero:
  "dbl_div (dbl_sub (dbl_mul n (Fin 0)) (dbl_mul (Fin 0) sy))
           (dbl_sub (dbl_mul n (Fin 0)) (dbl_mul (Fin 0) (Fin 0))) = NaN"
  by (cases n; cases sy) (simp_all add: dbl_eval)

lemma least_squares_zero_x:
  assumes "complexity \<le> 1" and "\<forall>p\<in>set pts. fst p = 0"
  shows "model (calculateModelFunction (finite_points pts) complexity regType regStrength noise) x
         = NaN"
proof -
  have m: "normal_equations_slope (finite_points pts) = NaN"
    by (simp add: normal_equations_slope_def Let_def zero_x_sums [OF assms(2)] zero_over_zero)
  have b: "normal_equations_intercept (finite_points pts) = NaN"
    by (simp add: normal_equations_intercept_def Let_def m dbl_mul_def dbl_sub_def dbl_div_def
          js_sub_def js_add_NaN_right)
  have "model (calculateModelFunction (finite_points pts) complexity regType regStrength noise) x
        = dbl_add (dbl_mul (normal_equations_slope (finite_points pts)) x)
                  (normal_equations_intercept (finite_points pts))"
    using assms(1)
    by (simp add: calculateModelFunction_def fold_accumulate_sums normal_equations_slope_def
          normal_equations_intercept_def dbl_sum_def Let_def)
  then show ?thesis by (simp add: m b dbl_mul_def dbl_add_def)
qed

text \<open>
  Coinciding x-values other than 0 need not divide by zero: for three points at the
  double nearest to 0.3 the rounded sums leave the denominator \<open>2 ^ (- 52)\<close>, the
  slope is 0 and the fit is the flat line \<open>y = 1\<close>.
\<close>

lemma coincident_x_flat_line:
  "normal_equations_slope
     [\<lparr>xval = Fin (5404319552844595 / 18014398509481984), yval = Fin 0\<rparr>, \<lparr>xval = Fin (5404319552844595 / 18014398509481984), yval = Fin 1\<rparr>,
      \<lparr>xval = Fin (5404319552844595 / 18014398509481984), yval = Fin 2\<rparr>] = Fin 0 \<and>
   model (calculateModelFunction
            [\<lparr>xval = Fin (5404319552844595 / 18014398509481984), yval = Fin 0\<rparr>, \<lparr>xval = Fin (5404319552844595 / 18014398509481984), yval = Fin 1\<rparr>,
             \<lparr>xval = Fin (5404319552844595 / 18014398509481984), yval = Fin 2\<rparr>] 1 RegNone (Fin 0) (Fin 0.5)) (Fin 5) = Fin 1"
proof -
  have q1: "round_to_double (5404319552844595 / 18014398509481984) = Fin (5404319552844595 / 18014398509481984)"
    using round_to_double_normal [of "- 2" "5404319552844595 / 18014398509481984"] by (simp add: round_half_even_def)
  have q2: "round_to_double (29206669829258403248756220714025 / 324518553658426726783156020576256) = Fin (3242591731706757 / 36028797018963968)"
    using round_to_double_normal [of "- 4" "29206669829258403248756220714025 / 324518553658426726783156020576256"] by (simp add: round_half_even_def)
  have q3: "round_to_double (3242591731706757 / 36028797018963968) = Fin (3242591731706757 / 36028797018963968)"
    using round_to_double_normal [of "- 4" "3242591731706757 / 36028797018963968"] by (simp add: round_half_even_def)
  have q4: "round_to_double (5404319552844595 / 9007199254740992) = Fin (5404319552844595 / 9007199254740992)"
    using round_to_double_normal [of "- 1" "5404319552844595 / 9007199254740992"] by (simp add: round_half_even_def)
  have q5: "round_to_double (3242591731706757 / 18014398509481984) = Fin (3242591731706757 / 18014398509481984)"
    using round_to_double_normal [of "- 3" "3242591731706757 / 18014398509481984"] by (simp add: round_half_even_def)
  have q6: "round_to_double (16212958658533785 / 18014398509481984) = Fin (2026619832316723 / 2251799813685248)"
    using round_to_double_normal [of "- 1" "16212958658533785 / 18014398509481984"] by (simp add: round_half_even_def)
  have q7: "round_to_double (9727775195120271 / 36028797018963968) = Fin (607985949695017 / 2251799813685248)"
    using round_to_double_normal [of "- 2" "9727775195120271 / 36028797018963968"] by (simp add: round_half_even_def)
  have q8: "round_to_double (6079859496950169 / 2251799813685248) = Fin (6079859496950169 / 2251799813685248)"
    using round_to_double_normal [of "1" "6079859496950169 / 2251799813685248"] by (simp add: round_half_even_def)
  have q9: "round_to_double (1823957849085051 / 2251799813685248) = Fin (1823957849085051 / 2251799813685248)"
    using round_to_double_normal [of "- 1" "1823957849085051 / 2251799813685248"] by (simp add: round_half_even_def)
  have q10: "round_to_double (4107187944739462450201385458729 / 5070602400912917605986812821504) = Fin (3647915698170101 / 4503599627370496)"
    using round_to_double_normal [of "- 1" "4107187944739462450201385458729 / 5070602400912917605986812821504"] by (simp add: round_half_even_def)
  have q11: "round_to_double (1 / 4503599627370496) = Fin (1 / 4503599627370496)"
    using round_to_double_normal [of "- 52" "1 / 4503599627370496"] by (simp add: round_half_even_def)
  show ?thesis
    using q1 q2 q3 q4 q5 q6 q7 q8 q9 q10 q11
    by (simp add: calculateModelFunction_def accumulate_def normal_equations_slope_def
          dbl_sum_def dbl_eval)
qed

text \<open>
  Claim C3 says that the divisions by zero are guarded: that one point is rejected or
  treated apart instead of giving a \<open>NaN\<close> x-value, and that the least-squares
  branch on coinciding x-values does not let \<open>NaN\<close> or an infinity into its output.
  Neither function has a guard: with one point the step is \<open>0 / 0\<close> and the point is
  \<open>(NaN, NaN)\<close>; on the two points \<open>(0, 0)\<close> and \<open>(0, 1)\<close> the slope is \<open>0 / 0\<close>
  and the fitted function returns \<open>NaN\<close>.
\<close>

theorem division_by_zero_reaches_the_output:
  "generateTrainingData 1 (Fin 0.5) 1 = [\<lparr>xval = NaN, yval = NaN\<rparr>] \<and>
   model (calculateModelFunction
            [\<lparr>xval = Fin 0, yval = Fin 0\<rparr>, \<lparr>xval = Fin 0, yval = Fin 1\<rparr>] 1 RegNone (Fin 0) (Fin 0.5))
     (Fin 1) = NaN"
proof -
  have "finite_points [(0, 0), (0, 1)] =
        [\<lparr>xval = Fin 0, yval = Fin 0\<rparr>, \<lparr>xval = Fin 0, yval = Fin 1\<rparr>]"
    by (simp add: finite_points_def)
  then show ?thesis
    using least_squares_zero_x [of 1 "[(0, 0), (0, 1)]" RegNone "Fin 0" "Fin 0.5" "Fin 1"]
    by (simp add: generateTrainingData_one)
qed

text \<open>
  Claim C3 as the code behaves on these inputs: the divisions by zero are not guarded.
  For every noise level and seed, \<open>generateTrainingData\<close> with one point returns the
  single point \<open>(NaN, NaN)\<close>; and for every training set of finite points whose
  x-values are all 0, the least-squares branch (\<open>complexity \<le> 1\<close>) divides 0 by 0
  and returns a function whose value is \<open>NaN\<close> at every argument.
\<close>

theorem divisions_by_zero_unguarded:
  assumes "complexity \<le> 1" and "\<forall>p\<in>set pts. fst p = 0"
  shows "generateTrainingData 1 noiseLevel seed = [\<lparr>xval = NaN, yval = NaN\<rparr>] \<and>
         model (calculateModelFunction (finite_points pts) complexity regType regStrength noise) x
           = NaN"
  using least_squares_zero_x [OF assms] generateTrainingData_one by simp

theorem divisions_by_zero_unguarded_witness:
  "(1::int) \<le> 1 \<and> fst (0 :: real, 2 :: real) = 0 \<and> fst (0 :: real, 5 :: real) = 0 \<and>
   generateTrainingData 1 (Fin 0.5) 1 = [\<lparr>xval = NaN, yval = NaN\<rparr>] \<and>
   model (calculateModelFunction (finite_points [(0, 2), (0, 5)]) 1 RegNone (Fin 0) (Fin 0.5))
     (Fin 1) = NaN"
  using divisions_by_zero_unguarded [of 1 "[(0, 2), (0, 5)]" "Fin 0.5" 1 RegNone "Fin 0" "Fin 0.5" "Fin 1"]
  by simp


section \<open>The curve sampler\<close>

lemma getLineData_loop_eq:
  "getLineData_loop f d steps ss i data =
     data @ map (\<lambda>j. \<lparr>xval = dbl_add (fst d) (dbl_mul (Fin (of_int j)) ss),
                       yval = f (dbl_add (fst d) (dbl_mul (Fin (of_int j)) ss))\<rparr>) [i..steps]"
proof (induction "nat (steps + 1 - i)" arbitrary: i data)
  case 0
  then have "\<not> i \<le> steps" by simp
  then show ?case by (subst getLineData_loop.simps) simp
next
  case (Suc k)
  then have le: "i \<le> steps" and k: "k = nat (steps + 1 - (i + 1))" by linarith+
  have u: "[i..steps] = i # [i + 1..steps]"
    using le by (simp add: upto_rec1)
  show ?case
    using le by (subst getLineData_loop.simps) (simp add: Suc.hyps(1) [OF k] u Let_def)
qed

lemma getLineData_eq:
  "getLineData f (lo, hi) steps =
     map (\<lambda>j. \<lparr>xval = dbl_add lo (dbl_mul (Fin (of_int j)) (dbl_div (dbl_sub hi lo) (Fin (of_int steps)))),
                 yval = f (dbl_add lo (dbl_mul (Fin (of_int j))
                             (dbl_div (dbl_sub hi lo) (Fin (of_int steps)))))\<rparr>) [0..steps]"
  by (simp add: getLineData_def getLineData_loop_eq Let_def)

text \<open>
  The domain \<open>[-2, 2]\<close> with 49 steps: the step \<open>4 / 49\<close> is rounded down, 49 times
  the step is rounded to the double before 4, and the last x is the double before 2.
\<close>

lemma r_step49: "round_to_double (4 / 49) = Fin (5882252574524729 / 72057594037927936)"
  using round_to_double_normal [of "- 4" "4 / 49"] by (simp add: round_half_even_def)

lemma r_span49:
  "round_to_double (49 * (5882252574524729 / 72057594037927936)) =
     Fin (9007199254740991 / 2251799813685248)"
  using round_to_double_normal [of 1 "49 * (5882252574524729 / 72057594037927936)"]
  by (simp add: round_half_even_def)

lemma r_last49:
  "round_to_double (- 2 + 9007199254740991 / 2251799813685248) =
     Fin (4503599627370495 / 2251799813685248)"
  using round_to_double_normal [of 0 "- 2 + 9007199254740991 / 2251799813685248"]
  by (simp add: round_half_even_def)

lemma last49:
  "xval (last (getLineData f (Fin (- 2), Fin 2) 49)) = Fin (4503599627370495 / 2251799813685248)"
proof -
  have ss: "dbl_div (dbl_sub (Fin 2) (Fin (- 2))) (Fin (of_int 49)) =
            Fin (5882252574524729 / 72057594037927936)"
    by (simp add: dbl_eval r_step49)
  have "last [0..49::int] = 49" by (simp add: upto_rec2)
  moreover have "[0..49::int] \<noteq> []" by simp
  ultimately have "xval (last (getLineData f (Fin (- 2), Fin 2) 49)) =
        dbl_add (Fin (- 2)) (dbl_mul (Fin (of_int 49)) (Fin (5882252574524729 / 72057594037927936)))"
    unfolding getLineData_eq ss by (simp add: last_map)
  also have "\<dots> = Fin (4503599627370495 / 2251799813685248)"
    using r_span49 r_last49 by (simp add: dbl_add_Fin dbl_mul_Fin)
  finally show ?thesis .
qed


text \<open>
  The domain \<open>[-2, 2]\<close> with 100 steps: 100 times the rounded step is rounded to 4, so
  the last x is 2; every x is within \<open>1 / 1000\<close> of \<open>- 2 + i / 25\<close>, so the x-values
  increase strictly.
\<close>

lemma r_step100: "round_to_double (4 / 100) = Fin (5764607523034235 / 144115188075855872)"
  using round_to_double_normal [of "- 5" "4 / 100"] by (simp add: round_half_even_def)

lemma r_span100: "round_to_double (100 * (5764607523034235 / 144115188075855872)) = Fin 4"
  using round_to_double_normal [of 2 "100 * (5764607523034235 / 144115188075855872)"]
  by (simp add: round_half_even_def)

lemma step100:
  "dbl_div (dbl_sub (Fin 2) (Fin (- 2))) (Fin 100) =
     Fin (5764607523034235 / 144115188075855872)"
  using r_step100 by (simp add: dbl_eval)

lemma small_powers:
  "(2::real) powi (- 53) \<le> 1 / 1000000" "(2::real) powi (- 1075) \<le> 1 / 1000000"
proof -
  show a: "(2::real) powi (- 53) \<le> 1 / 1000000" by simp
  have "(2::real) powi (- 1075) \<le> 2 powi (- 53)" by (rule two_powi_mono) simp
  then show "(2::real) powi (- 1075) \<le> 1 / 1000000" using a by linarith
qed

lemma round_to_double_near:
  assumes "\<bar>x\<bar> \<le> 10"
  shows "\<exists>y. round_to_double x = Fin y \<and> \<bar>y - x\<bar> \<le> 11 / 1000000"
proof -
  have "(10::real) < 2 powi 1023"
  proof -
    have "(10::real) < 2 powi 4" by simp
    also have "\<dots> \<le> 2 powi 1023" by (rule two_powi_mono) simp
    finally show ?thesis .
  qed
  then have "\<bar>x\<bar> < 2 powi 1023" using assms by linarith
  then obtain y where y: "round_to_double x = Fin y"
    and c: "\<bar>y - x\<bar> \<le> \<bar>x\<bar> * 2 powi (- 53) + 2 powi (- 1075)"
    using round_to_double_close by blast
  have "\<bar>x\<bar> * 2 powi (- 53) \<le> 10 * (1 / 1000000)"
    using assms small_powers(1) by (intro mult_mono) auto
  then have "\<bar>y - x\<bar> \<le> 11 / 1000000" using c small_powers(2) by linarith
  with y show ?thesis by blast
qed

lemma sample100_near:
  assumes "0 \<le> i" and "i \<le> 100"
  shows "\<exists>v. dbl_add (Fin (- 2)) (dbl_mul (Fin (of_int i)) (Fin (5764607523034235 / 144115188075855872)))
               = Fin v \<and> \<bar>v - (- 2 + of_int i / 25)\<bar> \<le> 1 / 1000"
proof -
  let ?d = "5764607523034235 / 144115188075855872 :: real"
  let ?i = "of_int i :: real"
  have i: "0 \<le> ?i" "?i \<le> 100" using assms by simp_all
  have d: "?i * ?d - ?i / 25 = ?i * (3 / 3602879701896396800)" by (simp add: algebra_simps)
  have "0 \<le> ?i * (3 / 3602879701896396800)" using i by simp
  moreover have "?i * (3 / 3602879701896396800) \<le> 100 * (3 / 3602879701896396800)"
    using i by (intro mult_right_mono) auto
  ultimately have e1: "\<bar>?i * ?d - ?i / 25\<bar> \<le> 1 / 1000000" unfolding d by simp
  then have "\<bar>?i * ?d\<bar> \<le> 10" using i by linarith
  then obtain p where p: "round_to_double (?i * ?d) = Fin p" and e2: "\<bar>p - ?i * ?d\<bar> \<le> 11 / 1000000"
    using round_to_double_near by blast
  have "\<bar>- 2 + p\<bar> \<le> 10" using e1 e2 i by linarith
  then obtain v where v: "round_to_double (- 2 + p) = Fin v" and e3: "\<bar>v - (- 2 + p)\<bar> \<le> 11 / 1000000"
    using round_to_double_near by blast
  have "dbl_add (Fin (- 2)) (dbl_mul (Fin ?i) (Fin ?d)) = Fin v"
    by (simp only: dbl_mul_Fin p dbl_add_Fin v)
  moreover have "\<bar>v - (- 2 + ?i / 25)\<bar> \<le> 1 / 1000" using e1 e2 e3 by linarith
  ultimately show ?thesis by blast
qed

lemma sample100_increasing:
  assumes "i \<in> set [0..100]" and "j \<in> set [0..100]" and "i < j"
  shows "js_gt (dbl_add (Fin (- 2)) (dbl_mul (Fin (of_int j)) (Fin (5764607523034235 / 144115188075855872))))
               (dbl_add (Fin (- 2)) (dbl_mul (Fin (of_int i)) (Fin (5764607523034235 / 144115188075855872))))"
proof -
  from assms have bi: "0 \<le> i" "i \<le> 100" and bj: "0 \<le> j" "j \<le> 100" by simp_all
  obtain v where v: "dbl_add (Fin (- 2)) (dbl_mul (Fin (of_int i)) (Fin (5764607523034235 / 144115188075855872))) = Fin v"
    and ev: "\<bar>v - (- 2 + of_int i / 25)\<bar> \<le> 1 / 1000"
    using sample100_near [OF bi] by blast
  obtain w where w: "dbl_add (Fin (- 2)) (dbl_mul (Fin (of_int j)) (Fin (5764607523034235 / 144115188075855872))) = Fin w"
    and ew: "\<bar>w - (- 2 + of_int j / 25)\<bar> \<le> 1 / 1000"
    using sample100_near [OF bj] by blast
  have "i + 1 \<le> j" using assms(3) by simp
  then have "(of_int i :: real) + 1 \<le> of_int j" by (metis of_int_1 of_int_add of_int_le_iff)
  then have "v < w" using ev ew by linarith
  then show ?thesis by (simp add: v w)
qed

lemma line100:
  "length (getLineData f (Fin (- 2), Fin 2) 100) = 101"
  "xval (hd (getLineData f (Fin (- 2), Fin 2) 100)) = Fin (- 2)"
  "xval (last (getLineData f (Fin (- 2), Fin 2) 100)) = Fin 2"
  "strictly_increasing_x (getLineData f (Fin (- 2), Fin 2) 100)"
proof -
  let ?d = "Fin (5764607523034235 / 144115188075855872)"
  have eq: "getLineData f (Fin (- 2), Fin 2) 100 =
     map (\<lambda>j. \<lparr>xval = dbl_add (Fin (- 2)) (dbl_mul (Fin (of_int j)) ?d),
                 yval = f (dbl_add (Fin (- 2)) (dbl_mul (Fin (of_int j)) ?d))\<rparr>) [0..100]"
    by (simp add: getLineData_eq step100)
  show "length (getLineData f (Fin (- 2), Fin 2) 100) = 101"
    by (simp add: eq)
  have ne: "[0..100::int] \<noteq> []" by simp
  have "hd [0..100::int] = 0" by (simp add: upto_rec1)
  then show "xval (hd (getLineData f (Fin (- 2), Fin 2) 100)) = Fin (- 2)"
    using ne by (simp add: eq hd_map dbl_eval)
  have "last [0..100::int] = 100" by (simp add: upto_rec2)
  then have "xval (last (getLineData f (Fin (- 2), Fin 2) 100)) =
             dbl_add (Fin (- 2)) (dbl_mul (Fin (of_int 100)) ?d)"
    using ne by (simp add: eq last_map)
  also have "\<dots> = Fin 2"
    using r_span100 by (simp add: dbl_mul_Fin dbl_add_Fin round_to_double_numeral)
  finally show "xval (last (getLineData f (Fin (- 2), Fin 2) 100)) = Fin 2" .
  have "sorted_wrt (\<lambda>i j. js_gt (dbl_add (Fin (- 2)) (dbl_mul (Fin (of_int j)) ?d))
                                (dbl_add (Fin (- 2)) (dbl_mul (Fin (of_int i)) ?d))) [0..100]"
    by (rule sorted_wrt_mono_rel [OF _ sorted_wrt_upto]) (rule sample100_increasing)
  then show "strictly_increasing_x (getLineData f (Fin (- 2), Fin 2) 100)"
    by (simp add: strictly_increasing_x_def eq sorted_wrt_map)
qed


text \<open>
  A domain of width 0, and the domain from 1 to the next double \<open>1 + 2 ^ (- 52)\<close> with
  two steps: \<open>1 + 2 ^ (- 53)\<close> lies halfway between the two and is rounded to 1.
\<close>

lemma strictly_increasing_x_map:
  "strictly_increasing_x pts = sorted_wrt (\<lambda>a b. js_gt b a) (map xval pts)"
  by (simp add: strictly_increasing_x_def sorted_wrt_map)

lemma line_zero_width:
  "map xval (getLineData f (Fin 0, Fin 0) 1) = [Fin 0, Fin 0]"
  by (simp add: getLineData_eq upto_rec1 dbl_eval)

lemma r_tie: "round_to_double (1 + 1 / 9007199254740992) = Fin 1"
  using round_to_double_normal [of 0 "1 + 1 / 9007199254740992"] by (simp add: round_half_even_def)

lemma r_tie': "round_to_double (9007199254740993 / 9007199254740992) = Fin 1"
  using r_tie by simp

lemma r_width: "round_to_double (1 / 4503599627370496) = Fin (1 / 4503599627370496)"
  using round_to_double_normal [of "- 52" "1 / 4503599627370496"] by (simp add: round_half_even_def)

lemma r_half_width: "round_to_double (1 / 9007199254740992) = Fin (1 / 9007199254740992)"
  using round_to_double_normal [of "- 53" "1 / 9007199254740992"] by (simp add: round_half_even_def)

lemma r_next: "round_to_double (4503599627370497 / 4503599627370496) = Fin (4503599627370497 / 4503599627370496)"
  using round_to_double_normal [of 0 "4503599627370497 / 4503599627370496"]
  by (simp add: round_half_even_def)

lemma line_one_ulp:
  "map xval (getLineData f (Fin 1, Fin (4503599627370497 / 4503599627370496)) 2) =
     [Fin 1, Fin 1, Fin (4503599627370497 / 4503599627370496)]"
  by (simp add: getLineData_eq upto_rec1 dbl_eval r_tie' r_width r_half_width r_next)

text \<open>
  Claim C9 says that for every domain and every \<open>steps \<ge> 1\<close> the x-values increase
  strictly and the last x equals \<open>hi\<close>. On the domain \<open>[0, 0]\<close> with one step both
  x-values are 0. On \<open>[-2, 2]\<close> with 49 steps the last x is
  \<open>4503599627370495 / 2251799813685248\<close>, the double before 2. On
  \<open>[1, 1 + 2 ^ (- 52)]\<close> with two steps, where \<open>lo < hi\<close>, the first two x-values are
  both 1.
\<close>

theorem sampled_x_need_not_increase_or_reach_hi:
  "map xval (getLineData trueFunction (Fin 0, Fin 0) 1) = [Fin 0, Fin 0] \<and>
   \<not> strictly_increasing_x (getLineData trueFunction (Fin 0, Fin 0) 1) \<and>
   xval (last (getLineData trueFunction (Fin (- 2), Fin 2) 49)) =
     Fin (4503599627370495 / 2251799813685248) \<and>
   xval (last (getLineData trueFunction (Fin (- 2), Fin 2) 49)) \<noteq> Fin 2 \<and>
   map xval (getLineData trueFunction (Fin 1, Fin (4503599627370497 / 4503599627370496)) 2) =
     [Fin 1, Fin 1, Fin (4503599627370497 / 4503599627370496)] \<and>
   \<not> strictly_increasing_x
        (getLineData trueFunction (Fin 1, Fin (4503599627370497 / 4503599627370496)) 2)"
proof -
  have a: "\<not> strictly_increasing_x (getLineData trueFunction (Fin 0, Fin 0) 1)"
    by (simp add: strictly_increasing_x_map line_zero_width)
  have b: "\<not> strictly_increasing_x
             (getLineData trueFunction (Fin 1, Fin (4503599627370497 / 4503599627370496)) 2)"
    by (simp add: strictly_increasing_x_map line_one_ulp)
  show ?thesis
    using a b by (simp add: line_zero_width line_one_ulp last49)
qed

text \<open>
  Claim C9 as the sampler computes it: for every function \<open>f\<close>, finite \<open>lo\<close> and \<open>hi\<close>
  and \<open>steps \<ge> 1\<close>, \<open>getLineData\<close> returns \<open>steps + 1\<close> points with \<open>y = f x\<close> at
  each point, the \<open>i\<close>-th x being \<open>lo + i * ((hi - lo) / steps)\<close> in double arithmetic;
  the first x is \<open>lo\<close> when \<open>lo\<close> is a double and the step is finite. That the last x
  is \<open>hi\<close> and that the x-values increase strictly is not promised in general; for
  \<open>[-2, 2]\<close> and 100 steps the 101 points run from exactly \<open>- 2\<close> to exactly \<open>2\<close> with
  strictly increasing x.
\<close>

theorem getLineData_samples:
  assumes "1 \<le> steps"
  shows "length (getLineData f (Fin lo, Fin hi) steps) = nat (steps + 1) \<and>
         map yval (getLineData f (Fin lo, Fin hi) steps) =
           map (\<lambda>p. f (xval p)) (getLineData f (Fin lo, Fin hi) steps) \<and>
         map xval (getLineData f (Fin lo, Fin hi) steps) =
           map (\<lambda>j. dbl_add (Fin lo)
                      (dbl_mul (Fin (of_int j))
                         (dbl_div (dbl_sub (Fin hi) (Fin lo)) (Fin (of_int steps))))) [0..steps] \<and>
         (round_to_double lo = Fin lo \<and>
          is_finite (dbl_div (dbl_sub (Fin hi) (Fin lo)) (Fin (of_int steps))) \<longrightarrow>
            xval (hd (getLineData f (Fin lo, Fin hi) steps)) = Fin lo) \<and>
         length (getLineData f (Fin (- 2), Fin 2) 100) = 101 \<and>
         xval (hd (getLineData f (Fin (- 2), Fin 2) 100)) = Fin (- 2) \<and>
         xval (last (getLineData f (Fin (- 2), Fin 2) 100)) = Fin 2 \<and>
         strictly_increasing_x (getLineData f (Fin (- 2), Fin 2) 100)"
proof -
  let ?ss = "dbl_div (dbl_sub (Fin hi) (Fin lo)) (Fin (of_int steps))"
  note eq = getLineData_eq [of f "Fin lo" "Fin hi" steps]
  have len: "length (getLineData f (Fin lo, Fin hi) steps) = nat (steps + 1)"
    by (simp add: eq)
  have ys: "map yval (getLineData f (Fin lo, Fin hi) steps) =
            map (\<lambda>p. f (xval p)) (getLineData f (Fin lo, Fin hi) steps)"
    by (simp add: eq o_def)
  have xs: "map xval (getLineData f (Fin lo, Fin hi) steps) =
            map (\<lambda>j. dbl_add (Fin lo) (dbl_mul (Fin (of_int j)) ?ss)) [0..steps]"
    by (simp add: eq o_def)
  have first: "xval (hd (getLineData f (Fin lo, Fin hi) steps)) = Fin lo"
    if d: "round_to_double lo = Fin lo" and fin: "is_finite ?ss"
  proof -
    obtain s where s: "?ss = Fin s" using fin by (cases ?ss) simp_all
    have ne: "[0..steps] \<noteq> []" using assms by simp
    have "hd [0..steps] = 0" using assms by (simp add: upto_rec1)
    then have "xval (hd (getLineData f (Fin lo, Fin hi) steps)) =
               dbl_add (Fin lo) (dbl_mul (Fin (of_int 0)) ?ss)"
      using ne by (simp add: eq hd_map)
    also have "\<dots> = Fin lo"
      unfolding s by (simp add: dbl_mul_Fin round_to_double_zero dbl_add_Fin d)
    finally show ?thesis .
  qed
  show ?thesis
    using len ys xs first line100 [of f] by blast
qed

theorem getLineData_samples_witness:
  "(1::int) \<le> 100 \<and> round_to_double (- 2) = Fin (- 2) \<and>
   is_finite (dbl_div (dbl_sub (Fin 2) (Fin (- 2))) (Fin (of_int 100))) \<and>
   length (getLineData trueFunction (Fin (- 2), Fin 2) 100) = nat (100 + 1) \<and>
   map yval (getLineData trueFunction (Fin (- 2), Fin 2) 100) =
     map (\<lambda>p. trueFunction (xval p)) (getLineData trueFunction (Fin (- 2), Fin 2) 100) \<and>
   xval (hd (getLineData trueFunction (Fin (- 2), Fin 2) 100)) = Fin (- 2) \<and>
   xval (last (getLineData trueFunction (Fin (- 2), Fin 2) 100)) = Fin 2 \<and>
   strictly_increasing_x (getLineData trueFunction (Fin (- 2), Fin 2) 100)"
proof -
  have d: "round_to_double (- 2) = Fin (- 2)"
    by (simp add: round_to_double_neg_numeral)
  have fin: "is_finite (dbl_div (dbl_sub (Fin 2) (Fin (- 2))) (Fin (of_int 100)))"
    by (simp add: step100)
  show ?thesis
    using getLineData_samples [of 100 trueFunction "- 2" 2] d fin by simp
qed

end
